theory Spec2Isabelle
  imports Complex_Main "HOL-Library.AList"
begin

section \<open>The loan calculator core of \<^verbatim>\<open>streamlit_app.py\<close>\<close>

text \<open>
  The computational core of the program is three functions: \<^verbatim>\<open>compute_emi\<close>,
  \<^verbatim>\<open>amortization_schedule\<close> and \<^verbatim>\<open>sensitivity_table\<close>. They are embedded
  here as HOL functions.

  Numbers. Python's \<^verbatim>\<open>float\<close> is modelled as \<^typ>\<open>real\<close>: every arithmetic
  operation is exact. Rounding, overflow (\<^verbatim>\<open>OverflowError\<close> of \<^verbatim>\<open>**\<close>), infinities
  and NaN are outside the model. Python's \<^verbatim>\<open>int\<close> is \<^typ>\<open>int\<close>. The literal
  \<^verbatim>\<open>0.01\<close> is the real number \<open>1/100\<close>. The properties stated below are those of
  the control flow and of the order between balances; what rounding decides (the value of the instalment to the last digit,
  the number of periods a loan takes to reach the threshold, the error of a sum) is not
  stated, and the concrete schedules evaluated use amounts that doubles represent
  exactly and results that are far from the threshold.

  Errors. Float division by zero raises \<^verbatim>\<open>ZeroDivisionError\<close> in Python; a function
  that can raise returns \<open>py_error + 'a\<close>, with \<open>Inl\<close> for the exception.

  Dates. \<^verbatim>\<open>start + relativedelta(months=k)\<close> is library code (dateutil); it is the
  parameter \<open>add_months\<close> of the schedule, over an arbitrary type of dates, and is
  taken to return a date (a date beyond the year 9999 is outside the model).
\<close>

subsection \<open>Errors and float division\<close>

datatype py_error = ZeroDivisionError

definition float_div :: "real \<Rightarrow> real \<Rightarrow> py_error + real" where
  "float_div x y = (if y = 0 then Inl ZeroDivisionError else Inr (x / y))"

subsection \<open>\<^verbatim>\<open>compute_emi\<close>\<close>

text \<open>
  \<^verbatim>\<open>
  def compute_emi(principal, annual_rate_pct, months):
      if months <= 0:
          return 0.0
      r = annual_rate_pct / 12 / 100
      if r == 0:
          return principal / months
      return principal * r * (1 + r) ** months / ((1 + r) ** months - 1)
  \<close>
  (\<open>principal\<close> is a constant of HOL, so the parameter is \<open>principal_amt\<close> here.)
  The divisions by \<open>12\<close>, \<open>100\<close> and by \<open>months\<close> (positive there) cannot
  fail; the last division can.
\<close>

definition compute_emi :: "real \<Rightarrow> real \<Rightarrow> int \<Rightarrow> py_error + real" where
  "compute_emi principal_amt annual_rate_pct months =
     (if months \<le> 0 then Inr 0
      else
        let r = annual_rate_pct / 12 / 100 in
        if r = 0 then Inr (principal_amt / real_of_int months)
        else float_div (principal_amt * r * (1 + r) ^ nat months)
                       ((1 + r) ^ nat months - 1))"

text \<open>
  The closed form as the specification words it, with no error case: the monthly rate,
  the even split at rate zero, the annuity formula otherwise, and zero for a term that
  is not positive.
\<close>

definition emi_closed_form :: "real \<Rightarrow> real \<Rightarrow> int \<Rightarrow> real" where
  "emi_closed_form principal_amt annualRatePercent termMonths =
     (if termMonths \<le> 0 then 0
      else if annualRatePercent / 12 / 100 = 0 then principal_amt / real_of_int termMonths
      else principal_amt * (annualRatePercent / 12 / 100)
             * (1 + annualRatePercent / 12 / 100) ^ nat termMonths
             / ((1 + annualRatePercent / 12 / 100) ^ nat termMonths - 1))"

subsection \<open>\<^verbatim>\<open>amortization_schedule\<close>\<close>

text \<open>
  One row of the schedule is the dictionary appended in the loop; the fields are, in the
  source's order, the columns \<^verbatim>\<open>Installment #\<close>, \<^verbatim>\<open>Date\<close>, \<^verbatim>\<open>Opening Balance\<close>,
  \<^verbatim>\<open>EMI (excl. extra)\<close>, \<^verbatim>\<open>Extra Payment\<close>, \<^verbatim>\<open>Interest\<close>, \<^verbatim>\<open>Principal\<close>,
  \<^verbatim>\<open>Total Payment\<close> and \<^verbatim>\<open>Closing Balance\<close>.
\<close>

record 'd period_row =
  installment_no :: int
  row_date :: 'd
  opening_balance :: real
  emi_excl_extra :: real
  extra_paid :: real
  interest_paid :: real
  principal_paid :: real
  total_paid :: real
  closing_balance :: real

text \<open>
  The body of the loop, from \<^verbatim>\<open>curr_date = ...\<close> to the dictionary, for the
  installment number \<open>m\<close> (already incremented) and the balance before the payment.
\<close>

definition schedule_row ::
  "('d \<Rightarrow> int \<Rightarrow> 'd) \<Rightarrow> real \<Rightarrow> real \<Rightarrow> real \<Rightarrow> 'd \<Rightarrow> int \<Rightarrow> real \<Rightarrow> 'd period_row" where
  "schedule_row add_months r emi extra_payment start m balance =
     (let curr_date = add_months start (m - 1);
          interest = (if r = 0 then 0 else balance * r);
          principal_component =
            (if r = 0 then min (emi + extra_payment) balance
             else min (emi + extra_payment - interest) balance);
          principal_component =
            (if principal_component < 0 then 0 else principal_component);
          new_balance = balance - principal_component;
          total_payment = principal_component + interest
      in \<lparr> installment_no = m, row_date = curr_date, opening_balance = balance,
           emi_excl_extra = emi, extra_paid = extra_payment, interest_paid = interest,
           principal_paid = principal_component, total_paid = total_payment,
           closing_balance = new_balance \<rparr>)"

text \<open>
  The \<^verbatim>\<open>while\<close> loop on the variables \<open>m\<close>, \<open>balance\<close> and \<open>rows\<close>; it returns
  their values when the loop is left, by its condition or by the \<^verbatim>\<open>break\<close>.
  \<^verbatim>\<open>
  while balance > 0 and m < months + 600:
      m += 1
      ...
      rows.append({...})
      balance = new_balance
      if balance <= 0.01:
          break
  \<close>
\<close>

function amortization_loop ::
  "('d \<Rightarrow> int \<Rightarrow> 'd) \<Rightarrow> real \<Rightarrow> real \<Rightarrow> real \<Rightarrow> 'd \<Rightarrow> int \<Rightarrow>
     int \<Rightarrow> real \<Rightarrow> 'd period_row list \<Rightarrow> int \<times> real \<times> 'd period_row list" where
  "amortization_loop add_months r emi extra_payment start months m balance rows =
     (if balance > 0 \<and> m < months + 600 then
        (if closing_balance (schedule_row add_months r emi extra_payment start (m + 1) balance)
              \<le> 0.01
         then (m + 1,
               closing_balance (schedule_row add_months r emi extra_payment start (m + 1) balance),
               rows @ [schedule_row add_months r emi extra_payment start (m + 1) balance])
         else amortization_loop add_months r emi extra_payment start months (m + 1)
               (closing_balance (schedule_row add_months r emi extra_payment start (m + 1) balance))
               (rows @ [schedule_row add_months r emi extra_payment start (m + 1) balance]))
      else (m, balance, rows))"
  by pat_completeness auto

termination
  by (relation "measure (\<lambda>(add_months, r, emi, extra_payment, start, months, m, balance, rows).
                   nat (months + 600 - m))") auto

text \<open>
  The zero-snap after the loop:
  \<^verbatim>\<open>
  if not df.empty:
      df.loc[df.index[-1], "Closing Balance"] = 0.0
  \<close>
\<close>

definition snap_last :: "'d period_row list \<Rightarrow> 'd period_row list" where
  "snap_last rows =
     (if rows = [] then rows
      else rows[length rows - 1 := (rows ! (length rows - 1))\<lparr>closing_balance := 0\<rparr>])"

definition amortization_schedule ::
  "('d \<Rightarrow> int \<Rightarrow> 'd) \<Rightarrow> real \<Rightarrow> real \<Rightarrow> int \<Rightarrow> 'd \<Rightarrow> real \<Rightarrow> py_error + 'd period_row list" where
  "amortization_schedule add_months principal_amt annual_rate_pct months start extra_payment =
     (let r = annual_rate_pct / 12 / 100 in
      case compute_emi principal_amt annual_rate_pct months of
        Inl e \<Rightarrow> Inl e
      | Inr emi \<Rightarrow>
          Inr (snap_last (snd (snd
            (amortization_loop add_months r emi extra_payment start months 0 principal_amt [])))))"

subsection \<open>\<^verbatim>\<open>sensitivity_table\<close>\<close>

text \<open>
  \<^verbatim>\<open>int(x)\<close> on a float truncates towards zero.
\<close>

definition py_int :: "real \<Rightarrow> int" where
  "py_int x = (if 0 \<le> x then \<lfloor>x\<rfloor> else \<lceil>x\<rceil>)"

text \<open>
  A row of the grid is the dictionary \<^verbatim>\<open>{"Rate %": r, f"{y}y": ..., ...}\<close>. The
  tenure columns are an association list in insertion order, keyed by the tenure \<open>y\<close>
  that the label \<^verbatim>\<open>f"{y}y"\<close> renders; assigning to a key that is present replaces
  its value in place, as a Python dictionary does.
\<close>

record sens_row =
  rate_pct :: real
  tenure_cells :: "(real \<times> real) list"

fun sens_cells :: "real \<Rightarrow> real \<Rightarrow> real list \<Rightarrow> sens_row \<Rightarrow> py_error + sens_row" where
  "sens_cells principal_amt r [] row = Inr row"
| "sens_cells principal_amt r (y # years_list) row =
     (let months = py_int (y * 12) in
      case compute_emi principal_amt r months of
        Inl e \<Rightarrow> Inl e
      | Inr v \<Rightarrow>
          sens_cells principal_amt r years_list
            (row\<lparr>tenure_cells := AList.update y v (tenure_cells row)\<rparr>))"

fun sens_rows ::
  "real \<Rightarrow> real list \<Rightarrow> real list \<Rightarrow> sens_row list \<Rightarrow> py_error + sens_row list" where
  "sens_rows principal_amt years_list [] out = Inr out"
| "sens_rows principal_amt years_list (r # rate_list) out =
     (case sens_cells principal_amt r years_list \<lparr>rate_pct = r, tenure_cells = []\<rparr> of
        Inl e \<Rightarrow> Inl e
      | Inr row \<Rightarrow> sens_rows principal_amt years_list rate_list (out @ [row]))"

definition sensitivity_table ::
  "real \<Rightarrow> real \<Rightarrow> real list \<Rightarrow> real list \<Rightarrow> py_error + sens_row list" where
  "sensitivity_table principal_amt base_rate years_list rate_list =
     sens_rows principal_amt years_list rate_list []"

subsection \<open>Auxiliary notions for the statements and proofs\<close>

text \<open>
  The sum of the \<^verbatim>\<open>Principal\<close> column of a schedule.
\<close>

definition principal_total :: "'d period_row list \<Rightarrow> real" where
  "principal_total rows = sum_list (map principal_paid rows)"

text \<open>
  The balance after one period, as a function of the monthly rate, the amount paid per
  period (\<open>emi + extra_payment\<close>) and the balance before: the closing balance that
  \<open>schedule_row\<close> computes.
\<close>

definition next_balance :: "real \<Rightarrow> real \<Rightarrow> real \<Rightarrow> real" where
  "next_balance r pay b = b - max 0 (min (pay - b * r) b)"

section \<open>Properties of \<^verbatim>\<open>compute_emi\<close>\<close>

text \<open>
  Where \<open>compute_emi\<close> returns, it returns the closed form of the specification.
\<close>

lemma compute_emi_returns_closed_form:
  assumes "compute_emi principal_amt annual_rate_pct months = Inr e"
  shows "e = emi_closed_form principal_amt annual_rate_pct months"
  using assms
  by (auto simp: compute_emi_def emi_closed_form_def float_div_def Let_def split: if_splits)

text \<open>
  Claim C1 says that \<open>compute_emi\<close> returns the closed form for every principal and
  every rate. The code does not: the zero rate is guarded (\<^verbatim>\<open>if r == 0\<close>), but the
  last division is not, and it raises \<^verbatim>\<open>ZeroDivisionError\<close> whenever
  \<open>(1 + r) ** months - 1\<close> is zero for a monthly rate \<open>r\<close> that is not. At the annual
  rate \<open>-2400\<close> and the term \<open>2\<close> the monthly rate is \<open>-2\<close>, \<open>(1 + r) ** 2\<close> is
  \<open>1\<close>, and the call raises instead of returning a payment.
\<close>

theorem compute_emi_division_by_zero:
  "compute_emi 1000 (-2400) 2 = Inl ZeroDivisionError"
  by (simp add: compute_emi_def float_div_def)

section \<open>Properties of \<^verbatim>\<open>amortization_schedule\<close>\<close>

subsection \<open>The loop\<close>

declare amortization_loop.simps [simp del]

lemma closing_schedule_row [simp]:
  "closing_balance (schedule_row add_months r emi extra_payment start m balance)
     = next_balance r (emi + extra_payment) balance"
  by (simp add: schedule_row_def next_balance_def Let_def min_def max_def)

lemma opening_schedule_row [simp]:
  "opening_balance (schedule_row add_months r emi extra_payment start m balance) = balance"
  by (simp add: schedule_row_def Let_def)

lemma principal_schedule_row [simp]:
  "principal_paid (schedule_row add_months r emi extra_payment start m balance)
     = balance - next_balance r (emi + extra_payment) balance"
  by (simp add: schedule_row_def next_balance_def Let_def min_def max_def)

lemma next_balance_le: "next_balance r pay b \<le> b"
  by (simp add: next_balance_def)

lemma next_balance_nonneg: "0 \<le> b \<Longrightarrow> 0 \<le> next_balance r pay b"
  by (simp add: next_balance_def max_def min_def)

lemma next_balance_antimono_pay: "pay \<le> pay' \<Longrightarrow> next_balance r pay' b \<le> next_balance r pay b"
  by (simp add: next_balance_def max_def min_def)

lemma next_balance_mono:
  assumes "0 \<le> 1 + r" and "b \<le> b'"
  shows "next_balance r pay b \<le> next_balance r pay b'"
proof -
  have eq: "next_balance r pay x = min x (max (x * (1 + r) - pay) 0)" for x
    by (simp add: next_balance_def max_def min_def algebra_simps)
  have "b * (1 + r) \<le> b' * (1 + r)"
    using assms by (rule_tac mult_right_mono) simp_all
  then show ?thesis
    unfolding eq using assms(2) by (simp add: max_def min_def)
qed

lemma amortization_loop_leave:
  "\<not> (0 < balance \<and> m < months + 600) \<Longrightarrow>
     amortization_loop add_months r emi extra_payment start months m balance rows
       = (m, balance, rows)"
  by (subst amortization_loop.simps) auto

lemma amortization_loop_break:
  "0 < balance \<Longrightarrow> m < months + 600 \<Longrightarrow>
   next_balance r (emi + extra_payment) balance \<le> 0.01 \<Longrightarrow>
     amortization_loop add_months r emi extra_payment start months m balance rows
       = (m + 1, next_balance r (emi + extra_payment) balance,
          rows @ [schedule_row add_months r emi extra_payment start (m + 1) balance])"
  by (subst amortization_loop.simps) auto

lemma amortization_loop_continue:
  "0 < balance \<Longrightarrow> m < months + 600 \<Longrightarrow>
   \<not> next_balance r (emi + extra_payment) balance \<le> 0.01 \<Longrightarrow>
     amortization_loop add_months r emi extra_payment start months m balance rows
       = amortization_loop add_months r emi extra_payment start months (m + 1)
           (next_balance r (emi + extra_payment) balance)
           (rows @ [schedule_row add_months r emi extra_payment start (m + 1) balance])"
  by (subst amortization_loop.simps) auto

lemma amortization_loop_rule:
  assumes init: "I m balance rows"
    and step: "\<And>m b rows. I m b rows \<Longrightarrow> 0 < b \<Longrightarrow> m < months + 600 \<Longrightarrow>
                 \<not> next_balance r (emi + extra_payment) b \<le> 0.01 \<Longrightarrow>
                 I (m + 1) (next_balance r (emi + extra_payment) b)
                   (rows @ [schedule_row add_months r emi extra_payment start (m + 1) b])"
    and leave: "\<And>m b rows. I m b rows \<Longrightarrow> \<not> (0 < b \<and> m < months + 600) \<Longrightarrow> Q m b rows"
    and break: "\<And>m b rows. I m b rows \<Longrightarrow> 0 < b \<Longrightarrow> m < months + 600 \<Longrightarrow>
                 next_balance r (emi + extra_payment) b \<le> 0.01 \<Longrightarrow>
                 Q (m + 1) (next_balance r (emi + extra_payment) b)
                   (rows @ [schedule_row add_months r emi extra_payment start (m + 1) b])"
  shows "case amortization_loop add_months r emi extra_payment start months m balance rows of
           (m', b', rows') \<Rightarrow> Q m' b' rows'"
  using init
proof (induction "nat (months + 600 - m)" arbitrary: m balance rows)
  case 0
  then have "\<not> (0 < balance \<and> m < months + 600)" by simp
  with 0 leave show ?case
    by (simp add: amortization_loop_leave)
next
  case (Suc k)
  show ?case
  proof (cases "0 < balance \<and> m < months + 600")
    case False
    with Suc.prems leave show ?thesis
      by (simp add: amortization_loop_leave)
  next
    case True
    show ?thesis
    proof (cases "next_balance r (emi + extra_payment) balance \<le> 0.01")
      case brk: True
      have "Q (m + 1) (next_balance r (emi + extra_payment) balance)
              (rows @ [schedule_row add_months r emi extra_payment start (m + 1) balance])"
        using Suc.prems True brk by (intro break) simp_all
      with True brk show ?thesis
        by (simp add: amortization_loop_break)
    next
      case cont: False
      have "I (m + 1) (next_balance r (emi + extra_payment) balance)
              (rows @ [schedule_row add_months r emi extra_payment start (m + 1) balance])"
        using Suc.prems True cont by (intro step) simp_all
      moreover have "k = nat (months + 600 - (m + 1))"
        using Suc.hyps(2) by simp
      ultimately have "case amortization_loop add_months r emi extra_payment start months (m + 1)
              (next_balance r (emi + extra_payment) balance)
              (rows @ [schedule_row add_months r emi extra_payment start (m + 1) balance]) of
           (m', b', rows') \<Rightarrow> Q m' b' rows'"
        by (intro Suc.hyps(1))
      with True cont show ?thesis
        by (simp add: amortization_loop_continue)
    qed
  qed
qed

lemma amortization_loop_invariant:
  assumes "I m balance rows"
    and "\<And>m b rows. I m b rows \<Longrightarrow> 0 < b \<Longrightarrow> m < months + 600 \<Longrightarrow>
           I (m + 1) (next_balance r (emi + extra_payment) b)
             (rows @ [schedule_row add_months r emi extra_payment start (m + 1) b])"
  shows "case amortization_loop add_months r emi extra_payment start months m balance rows of
           (m', b', rows') \<Rightarrow> I m' b' rows'"
  using assms(1) by (rule amortization_loop_rule) (simp_all add: assms(2))

lemma amortization_loop_counter:
  assumes "amortization_loop add_months r emi extra_payment start months m balance rows
             = (m', b', rows')"
  shows "m \<le> m' \<and> m' \<le> max m (months + 600)
         \<and> int (length rows') = int (length rows) + (m' - m)"
proof -
  have "case amortization_loop add_months r emi extra_payment start months m balance rows of
          (k, b, rs) \<Rightarrow> m \<le> k \<and> k \<le> max m (months + 600)
                          \<and> int (length rs) = int (length rows) + (k - m)"
    by (rule amortization_loop_invariant) auto
  with assms show ?thesis by simp
qed

lemma amortization_loop_exit:
  assumes "amortization_loop add_months r emi extra_payment start months m balance rows
             = (m', b', rows')"
  shows "b' \<le> 0.01 \<or> months + 600 \<le> m'"
proof -
  have "case amortization_loop add_months r emi extra_payment start months m balance rows of
          (k, b, rs) \<Rightarrow> b \<le> 0.01 \<or> months + 600 \<le> k"
    by (rule amortization_loop_rule [where I = "\<lambda>_ _ _. True"]) auto
  with assms show ?thesis by simp
qed


lemma amortization_loop_rows:
  assumes "amortization_loop add_months r emi extra_payment start months m balance []
             = (m', b', rows')"
  shows "(\<forall>row \<in> set rows'.
            closing_balance row = opening_balance row - principal_paid row
            \<and> 0 \<le> principal_paid row \<and> principal_paid row \<le> opening_balance row)
         \<and> (\<forall>row \<in> set (butlast rows'). 0.01 < closing_balance row)"
proof -
  let ?ok = "\<lambda>row::'a period_row.
               closing_balance row = opening_balance row - principal_paid row
               \<and> 0 \<le> principal_paid row \<and> principal_paid row \<le> opening_balance row"
  have "case amortization_loop add_months r emi extra_payment start months m balance [] of
          (k, b, rs) \<Rightarrow> (\<forall>row \<in> set rs. ?ok row)
                          \<and> (\<forall>row \<in> set (butlast rs). 0.01 < closing_balance row)"
    by (rule amortization_loop_rule
          [where I = "\<lambda>k b rs. \<forall>row \<in> set rs. ?ok row \<and> 0.01 < closing_balance row"])
       (auto simp: next_balance_le next_balance_nonneg less_imp_le dest: in_set_butlastD)
  with assms show ?thesis by simp
qed

subsection \<open>The zero-snap\<close>

lemma snap_last_Nil [simp]: "snap_last [] = []"
  by (simp add: snap_last_def)

lemma snap_last_snoc [simp]:
  "snap_last (rows @ [row]) = rows @ [row\<lparr>closing_balance := 0\<rparr>]"
  by (simp add: snap_last_def nth_append)

lemma length_snap_last [simp]: "length (snap_last rows) = length rows"
  by (simp add: snap_last_def)

lemma snap_last_eq_Nil [simp]: "snap_last rows = [] \<longleftrightarrow> rows = []"
  by (simp add: snap_last_def)

lemma butlast_snap_last [simp]: "butlast (snap_last rows) = butlast rows"
  by (cases rows rule: rev_cases) simp_all

lemma last_snap_last:
  "rows \<noteq> [] \<Longrightarrow> last (snap_last rows) = (last rows)\<lparr>closing_balance := 0\<rparr>"
  by (cases rows rule: rev_cases) simp_all

subsection \<open>A balance that the payment does not reduce\<close>

lemma amortization_loop_stuck:
  assumes stuck: "next_balance r (emi + extra_payment) balance = balance"
    and big: "0.01 < balance"
    and res: "amortization_loop add_months r emi extra_payment start months m balance rows
                = (m', b', rows')"
  shows "m' = max m (months + 600) \<and> b' = balance
         \<and> principal_total rows' = principal_total rows"
proof -
  have "case amortization_loop add_months r emi extra_payment start months m balance rows of
          (k, b, rs) \<Rightarrow> k = max m (months + 600) \<and> b = balance
                          \<and> principal_total rs = principal_total rows"
    using stuck big
    by (intro amortization_loop_rule
          [where I = "\<lambda>k b rs. m \<le> k \<and> k \<le> max m (months + 600) \<and> b = balance
                                 \<and> principal_total rs = principal_total rows"])
       (auto simp: principal_total_def)
  with res show ?thesis by simp
qed

subsection \<open>The schedule from the loop\<close>

lemma amortization_schedule_Inr:
  "compute_emi principal_amt a months = Inr emi \<Longrightarrow>
     amortization_schedule add_months principal_amt a months start extra_payment
       = Inr (snap_last (snd (snd
           (amortization_loop add_months (a / 12 / 100) emi extra_payment start months
              0 principal_amt []))))"
  by (simp add: amortization_schedule_def)

lemma amortization_schedule_cases:
  obtains (raises) "compute_emi principal_amt a months = Inl ZeroDivisionError"
      "amortization_schedule add_months principal_amt a months start extra_payment
         = Inl ZeroDivisionError"
  | (returns) emi m' b' rows' where
      "compute_emi principal_amt a months = Inr emi"
      "amortization_loop add_months (a / 12 / 100) emi extra_payment start months
         0 principal_amt [] = (m', b', rows')"
      "amortization_schedule add_months principal_amt a months start extra_payment
         = Inr (snap_last rows')"
proof (cases "compute_emi principal_amt a months")
  case (Inl e)
  then show ?thesis
    by (cases e) (auto intro: raises simp: amortization_schedule_def)
next
  case (Inr emi)
  obtain m' b' rows' where
    "amortization_loop add_months (a / 12 / 100) emi extra_payment start months
       0 principal_amt [] = (m', b', rows')"
    by (metis prod_cases3)
  with Inr show ?thesis
    by (auto intro: returns simp: amortization_schedule_Inr)
qed

subsection \<open>Termination and the iteration cap\<close>

text \<open>
  Claim C6, as amended. \<open>amortization_schedule\<close> terminates on every input (the loop is
  a total function: its measure \<open>months + 600 - m\<close> decreases): it either raises the
  \<^verbatim>\<open>ZeroDivisionError\<close> of \<open>compute_emi\<close> or returns a schedule, and the loop runs at
  most \<open>max 0 (termMonths + 600)\<close> times, so the schedule has at most that many
  records, whatever the extra payment and the rate are.
\<close>

theorem amortization_schedule_length_cap:
  "amortization_schedule add_months principal_amt a months start extra_payment
     = Inl ZeroDivisionError
   \<or> (\<exists>rows. amortization_schedule add_months principal_amt a months start extra_payment
                = Inr rows
              \<and> length rows \<le> nat (months + 600))"
proof (cases rule: amortization_schedule_cases
         [of principal_amt a months add_months start extra_payment])
  case raises
  then show ?thesis by simp
next
  case (returns emi m' b' rows')
  from amortization_loop_counter [OF returns(2)]
  have "length rows' \<le> nat (months + 600)" by auto
  with returns(3) show ?thesis by simp
qed

text \<open>
  The bound of claim C6 as the specification states it, \<open>termMonths + 600\<close> records,
  is negative for a term below \<open>-600\<close>, where the schedule is empty.
\<close>

theorem amortization_schedule_length_cap_counterexample:
  "amortization_schedule (+) 1 0 (-601) (0::int) 0 = Inr []
   \<and> \<not> int (length ([] :: int period_row list)) \<le> -601 + 600"
  by (simp add: amortization_schedule_def compute_emi_def amortization_loop_leave)

subsection \<open>The rows of a schedule\<close>

text \<open>
  Claim C5, as amended. In a schedule returned by \<open>amortization_schedule\<close>, every
  record has a principal portion between \<open>0\<close> and its opening balance (the payment is
  clamped, so the balance never goes negative); every record but the last satisfies
  \<open>closingBalance = openingBalance - principalPortion\<close> with \<open>closingBalance \<ge> 0\<close>;
  and the closing balance of the last record is exactly \<open>0\<close>, whatever its opening
  balance and principal portion are.
\<close>

theorem amortization_schedule_rows:
  assumes "amortization_schedule add_months principal_amt a months start extra_payment
             = Inr rows"
  shows "(\<forall>row \<in> set rows.
            0 \<le> principal_paid row \<and> principal_paid row \<le> opening_balance row)
         \<and> (\<forall>row \<in> set (butlast rows).
              closing_balance row = opening_balance row - principal_paid row
              \<and> 0 \<le> closing_balance row)
         \<and> (rows \<noteq> [] \<longrightarrow> closing_balance (last rows) = 0)"
proof (cases rule: amortization_schedule_cases
         [of principal_amt a months add_months start extra_payment])
  case raises
  with assms show ?thesis by simp
next
  case (returns emi m' b' rows')
  with assms have rows: "rows = snap_last rows'" by simp
  note inv = amortization_loop_rows [OF returns(2)]
  have "\<forall>row \<in> set rows.
          0 \<le> principal_paid row \<and> principal_paid row \<le> opening_balance row"
  proof (cases rows' rule: rev_cases)
    case Nil
    with rows show ?thesis by simp
  next
    case (snoc pre row)
    with inv rows show ?thesis by auto
  qed
  moreover have "\<forall>row \<in> set (butlast rows).
          closing_balance row = opening_balance row - principal_paid row
          \<and> 0 \<le> closing_balance row"
    using inv rows by (auto dest: in_set_butlastD)
  moreover have "rows \<noteq> [] \<longrightarrow> closing_balance (last rows) = 0"
    using rows by (simp add: last_snap_last)
  ultimately show ?thesis by blast
qed

text \<open>
  Two schedules evaluated: a principal of \<open>1/128\<close> over two months, which stops after
  one row because the balance left, \<open>1/256\<close>, is below \<open>0.01\<close>; and a principal of
  \<open>100\<close> over two months.
\<close>

lemma schedule_small_principal:
  "amortization_schedule (+) (1 / 128) 0 2 (0::int) 0
     = Inr [\<lparr> installment_no = 1, row_date = 0, opening_balance = 1 / 128,
               emi_excl_extra = 1 / 256, extra_paid = 0, interest_paid = 0,
               principal_paid = 1 / 256, total_paid = 1 / 256, closing_balance = 0 \<rparr>]"
  by (simp add: amortization_schedule_def compute_emi_def amortization_loop_break
        next_balance_def schedule_row_def snap_last_def Let_def)

lemma schedule_two_rows:
  "amortization_schedule (+) 100 0 2 (0::int) 0
     = Inr [\<lparr> installment_no = 1, row_date = 0, opening_balance = 100,
               emi_excl_extra = 50, extra_paid = 0, interest_paid = 0,
               principal_paid = 50, total_paid = 50, closing_balance = 50 \<rparr>,
            \<lparr> installment_no = 2, row_date = 1, opening_balance = 50,
               emi_excl_extra = 50, extra_paid = 0, interest_paid = 0,
               principal_paid = 50, total_paid = 50, closing_balance = 0 \<rparr>]"
  by (simp add: amortization_schedule_def compute_emi_def amortization_loop_break
        amortization_loop_continue next_balance_def schedule_row_def snap_last_def Let_def)

theorem amortization_schedule_rows_witness:
  "amortization_schedule (+) 100 0 2 (0::int) 0
     = Inr [\<lparr> installment_no = 1, row_date = 0, opening_balance = 100,
               emi_excl_extra = 50, extra_paid = 0, interest_paid = 0,
               principal_paid = 50, total_paid = 50, closing_balance = 50 \<rparr>,
            \<lparr> installment_no = 2, row_date = 1, opening_balance = 50,
               emi_excl_extra = 50, extra_paid = 0, interest_paid = 0,
               principal_paid = 50, total_paid = 50, closing_balance = 0 \<rparr>]
   \<and> (50::real) = 100 - 50 \<and> (0::real) \<le> 50 \<and> (50::real) \<le> 100"
  using amortization_schedule_rows [OF schedule_two_rows] schedule_two_rows by simp

text \<open>
  The claim C5 as the specification states it, the balance equation for every record,
  fails at the last record when the loop stops with a balance left: here the only record
  opens at \<open>1/128\<close>, pays \<open>1/256\<close> and closes at \<open>0\<close>.
\<close>

theorem amortization_schedule_rows_counterexample:
  "amortization_schedule (+) (1 / 128) 0 2 (0::int) 0
     = Inr [\<lparr> installment_no = 1, row_date = 0, opening_balance = 1 / 128,
               emi_excl_extra = 1 / 256, extra_paid = 0, interest_paid = 0,
               principal_paid = 1 / 256, total_paid = 1 / 256, closing_balance = 0 \<rparr>]
   \<and> (0::real) \<noteq> 1 / 128 - 1 / 256"
  by (simp add: schedule_small_principal)

subsection \<open>Schedules cut by the cap\<close>

text \<open>
  Claim C9, as amended. Whenever the loop of \<open>amortization_schedule\<close> is left with a
  balance above \<open>0.01\<close> and \<open>termMonths + 600\<close> is positive, the loop was stopped by
  the cap after \<open>termMonths + 600\<close> iterations, and the schedule returned has that many
  records and a last record whose closing balance is exactly \<open>0\<close>.
\<close>

theorem truncated_schedule_snapped:
  assumes emi: "compute_emi principal_amt a months = Inr emi"
    and left: "0.01 < fst (snd (amortization_loop add_months (a / 12 / 100) emi
                                  extra_payment start months 0 principal_amt []))"
    and cap: "0 < months + 600"
  shows "fst (amortization_loop add_months (a / 12 / 100) emi extra_payment start months
                0 principal_amt []) = months + 600
         \<and> (\<exists>rows. amortization_schedule add_months principal_amt a months start extra_payment
                      = Inr rows
                    \<and> int (length rows) = months + 600 \<and> rows \<noteq> []
                    \<and> closing_balance (last rows) = 0)"
proof -
  obtain m' b' rows' where
    res: "amortization_loop add_months (a / 12 / 100) emi extra_payment start months
            0 principal_amt [] = (m', b', rows')"
    by (metis prod_cases3)
  from left res have "0.01 < b'" by simp
  with amortization_loop_exit [OF res] have "months + 600 \<le> m'" by simp
  moreover from amortization_loop_counter [OF res] cap
  have "m' \<le> months + 600" and len: "int (length rows') = m'" by simp_all
  ultimately have m': "m' = months + 600" by simp
  with len cap have ne: "rows' \<noteq> []" by auto
  have "amortization_schedule add_months principal_amt a months start extra_payment
          = Inr (snap_last rows')"
    using emi res by (simp add: amortization_schedule_Inr)
  moreover have "closing_balance (last (snap_last rows')) = 0"
    using ne by (simp add: last_snap_last)
  ultimately show ?thesis
    using res m' len ne by simp
qed

text \<open>
  The claim C9 as stated, for every input, fails when \<open>termMonths + 600\<close> is not
  positive: with a term of \<open>-600\<close> the cap stops the loop before its first iteration,
  the balance \<open>1\<close> is left and the schedule is empty.
\<close>

theorem truncated_schedule_snapped_counterexample:
  "0.01 < fst (snd (amortization_loop (+) (0 / 12 / 100) 0 0 (0::int) (-600) 0 1 []))
   \<and> compute_emi 1 0 (-600) = Inr 0
   \<and> amortization_schedule (+) 1 0 (-600) (0::int) 0 = Inr []"
  by (simp add: amortization_schedule_def compute_emi_def amortization_loop_leave)

text \<open>
  A loan of \<open>1024\<close> over one month at rate zero with an extra payment of \<open>-1024\<close>:
  nothing is paid, the balance stays, and the loop runs to the cap of \<open>601\<close> rows.
\<close>

lemma loop_negative_extra:
  "amortization_loop (+) 0 1024 (-1024) (0::int) 1 0 1024 [] = (m', b', rows') \<Longrightarrow>
     m' = 601 \<and> b' = 1024 \<and> principal_total rows' = 0 \<and> length rows' = 601"
proof -
  assume res: "amortization_loop (+) 0 1024 (-1024) (0::int) 1 0 1024 [] = (m', b', rows')"
  have "next_balance 0 (1024 + (-1024)) 1024 = 1024"
    by (simp add: next_balance_def)
  from amortization_loop_stuck [OF this _ res] amortization_loop_counter [OF res]
  show ?thesis by (simp add: principal_total_def)
qed

theorem truncated_schedule_snapped_witness:
  "compute_emi 1024 0 1 = Inr 1024
   \<and> 0.01 < fst (snd (amortization_loop (+) 0 1024 (-1024) (0::int) 1 0 1024 []))
   \<and> (0::int) < 1 + 600
   \<and> fst (amortization_loop (+) 0 1024 (-1024) (0::int) 1 0 1024 []) = 601
   \<and> map_sum id length (amortization_schedule (+) 1024 0 1 (0::int) (-1024)) = Inr 601"
proof -
  obtain m' b' rows' where
    res: "amortization_loop (+) 0 1024 (-1024) (0::int) 1 0 1024 [] = (m', b', rows')"
    by (metis prod_cases3)
  have emi: "compute_emi 1024 0 1 = Inr 1024"
    by (simp add: compute_emi_def)
  have left: "0.01 < fst (snd (amortization_loop (+) (0 / 12 / 100) 1024 (-1024) (0::int)
                                  1 0 1024 []))"
    using loop_negative_extra [OF res] res by simp
  from truncated_schedule_snapped [OF emi left] emi left show ?thesis
    by auto
qed

subsection \<open>A term that is not positive\<close>

text \<open>
  Claim C2 says that the schedule is empty when \<open>termMonths \<le> 0\<close>. The code does not
  do that: for a term of \<open>0\<close> the instalment is \<open>0\<close>, nothing is paid, and the loop runs
  to its cap, so a principal of \<open>1000\<close> at rate \<open>0\<close> gives a schedule of \<open>600\<close> rows.
\<close>

theorem amortization_schedule_zero_term:
  "map_sum id length (amortization_schedule (+) 1000 0 0 (0::int) 0) = Inr 600"
proof -
  obtain m' b' rows' where
    res: "amortization_loop (+) 0 0 0 (0::int) 0 0 1000 [] = (m', b', rows')"
    by (metis prod_cases3)
  have "next_balance 0 (0 + 0) 1000 = 1000"
    by (simp add: next_balance_def)
  from amortization_loop_stuck [OF this _ res] amortization_loop_counter [OF res]
  have "length rows' = 600" by simp
  moreover have "compute_emi 1000 0 0 = Inr 0"
    by (simp add: compute_emi_def)
  then have "amortization_schedule (+) 1000 0 0 (0::int) 0 = Inr (snap_last rows')"
    using res by (simp add: amortization_schedule_Inr)
  ultimately show ?thesis by simp
qed

subsection \<open>The number of iterations\<close>

lemma amortization_loop_fst_ge:
  "m \<le> fst (amortization_loop add_months r emi extra_payment start months m balance rows)"
  using amortization_loop_counter
    [of add_months r emi extra_payment start months m balance rows]
  by (cases "amortization_loop add_months r emi extra_payment start months m balance rows")
     simp

lemma amortization_loop_fst_le:
  "fst (amortization_loop add_months r emi extra_payment start months m balance rows)
     \<le> max m (months + 600)"
  using amortization_loop_counter
    [of add_months r emi extra_payment start months m balance rows]
  by (cases "amortization_loop add_months r emi extra_payment start months m balance rows")
     simp

lemma loop_fst_leave:
  assumes "\<not> (0 < balance \<and> m < months + 600)"
  shows "fst (amortization_loop add_months r emi extra_payment start months m balance rows)
           = m"
  by (subst amortization_loop_leave [OF assms]) simp

lemma loop_fst_break:
  assumes "0 < balance" and "m < months + 600"
    and "next_balance r (emi + extra_payment) balance \<le> 0.01"
  shows "fst (amortization_loop add_months r emi extra_payment start months m balance rows)
           = m + 1"
  by (subst amortization_loop_break [OF assms]) simp

lemma loop_fst_continue:
  assumes "0 < balance" and "m < months + 600"
    and "\<not> next_balance r (emi + extra_payment) balance \<le> 0.01"
  shows "fst (amortization_loop add_months r emi extra_payment start months m balance rows)
       = fst (amortization_loop add_months r emi extra_payment start months (m + 1)
               (next_balance r (emi + extra_payment) balance)
               (rows @ [schedule_row add_months r emi extra_payment start (m + 1) balance]))"
  by (subst amortization_loop_continue [OF assms]) (rule refl)

lemma amortization_loop_fst_first:
  assumes "0 < balance" and "m < months + 600"
  shows "m + 1 \<le> fst (amortization_loop add_months r emi extra_payment start months
                          m balance rows)"
proof (cases "next_balance r (emi + extra_payment) balance \<le> 0.01")
  case True
  with assms show ?thesis by (simp add: loop_fst_break)
next
  case False
  show ?thesis
    unfolding loop_fst_continue [OF assms False] by (rule amortization_loop_fst_ge)
qed




subsection \<open>Extra payments\<close>

lemma next_balance_alt:
  "next_balance r pay x = min x (max (x * (1 + r) - pay) 0)"
  by (simp add: next_balance_def max_def min_def algebra_simps)

lemma loop_fst_mono:
  assumes "0 \<le> 1 + r" and "e \<le> e'" and "b' \<le> b"
  shows "fst (amortization_loop add_months r emi e' start months m b' rows')
           \<le> fst (amortization_loop add_months r emi e start months m b rows)"
  using assms(3)
proof (induction "nat (months + 600 - m)" arbitrary: m b b' rows rows')
  case 0
  then have "\<not> (0 < b' \<and> m < months + 600)" by simp
  then have "fst (amortization_loop add_months r emi e' start months m b' rows') = m"
    by (rule loop_fst_leave)
  then show ?case by (simp only: amortization_loop_fst_ge)
next
  case (Suc k)
  let ?L = "fst (amortization_loop add_months r emi e' start months m b' rows')"
  let ?R = "fst (amortization_loop add_months r emi e start months m b rows)"
  show ?case
  proof (cases "0 < b' \<and> m < months + 600")
    case False
    then have "?L = m" by (rule loop_fst_leave)
    then show ?thesis by (simp only: amortization_loop_fst_ge)
  next
    case True
    then have b': "0 < b'" and cap: "m < months + 600" by simp_all
    from b' Suc.prems have b: "0 < b" by simp
    have "next_balance r (emi + e') b' \<le> next_balance r (emi + e') b"
      using assms(1) Suc.prems by (rule next_balance_mono)
    also have "\<dots> \<le> next_balance r (emi + e) b"
      using assms(2) by (intro next_balance_antimono_pay) simp
    finally have le: "next_balance r (emi + e') b' \<le> next_balance r (emi + e) b" .
    show ?thesis
    proof (cases "next_balance r (emi + e') b' \<le> 0.01")
      case brk: True
      have "?L = m + 1" using b' cap brk by (rule loop_fst_break)
      moreover have "m + 1 \<le> ?R" using b cap by (rule amortization_loop_fst_first)
      ultimately show ?thesis by simp
    next
      case False
      with le have big: "\<not> next_balance r (emi + e) b \<le> 0.01" by simp
      have k: "k = nat (months + 600 - (m + 1))" using Suc.hyps(2) by simp
      have "?L = fst (amortization_loop add_months r emi e' start months (m + 1)
                       (next_balance r (emi + e') b')
                       (rows' @ [schedule_row add_months r emi e' start (m + 1) b']))"
        using b' cap False by (rule loop_fst_continue)
      also have "\<dots> \<le> fst (amortization_loop add_months r emi e start months (m + 1)
                       (next_balance r (emi + e) b)
                       (rows @ [schedule_row add_months r emi e start (m + 1) b]))"
        using k le by (rule Suc.hyps(1))
      also have "\<dots> = ?R"
        using b cap big by (rule loop_fst_continue [symmetric])
      finally show ?thesis .
    qed
  qed
qed

lemma next_balance_refix:
  assumes "1 + r \<le> 0" and "0 < b" and "0.01 < next_balance r pay b"
  shows "next_balance r pay (next_balance r pay b) = next_balance r pay b"
proof (cases "b \<le> max (b * (1 + r) - pay) 0")
  case True
  then have "next_balance r pay b = b" by (simp add: next_balance_alt)
  then show ?thesis by simp
next
  case False
  let ?nb = "next_balance r pay b"
  from False have nb: "?nb = max (b * (1 + r) - pay) 0"
    by (simp add: next_balance_alt)
  with assms(3) have nb': "?nb = b * (1 + r) - pay" by (simp add: max_def split: if_splits)
  have "?nb \<le> b" by (rule next_balance_le)
  then have "b * (1 + r) \<le> ?nb * (1 + r)"
    using assms(1) by (rule mult_right_mono_neg)
  with nb' have "?nb \<le> ?nb * (1 + r) - pay" by simp
  then show ?thesis
    by (subst next_balance_alt) (simp add: min_def max_def)
qed

lemma loop_fst_same_balance:
  assumes "1 + r \<le> 0" and "e \<le> e'"
  shows "fst (amortization_loop add_months r emi e' start months m b rows')
           \<le> fst (amortization_loop add_months r emi e start months m b rows)"
proof (cases "0 < b \<and> m < months + 600")
  case False
  then show ?thesis by (simp add: loop_fst_leave)
next
  case True
  then have b: "0 < b" and cap: "m < months + 600" by simp_all
  let ?L = "fst (amortization_loop add_months r emi e' start months m b rows')"
  let ?R = "fst (amortization_loop add_months r emi e start months m b rows)"
  let ?nb = "next_balance r (emi + e) b"
  have le: "next_balance r (emi + e') b \<le> ?nb"
    using assms(2) by (intro next_balance_antimono_pay) simp
  show ?thesis
  proof (cases "?nb \<le> 0.01")
    case brk: True
    with le have "next_balance r (emi + e') b \<le> 0.01" by simp
    with b cap have "?L = m + 1" by (rule loop_fst_break)
    moreover from b cap brk have "?R = m + 1" by (rule loop_fst_break)
    ultimately show ?thesis by simp
  next
    case False
    then have big: "0.01 < ?nb" by simp
    have stuck: "next_balance r (emi + e) ?nb = ?nb"
      using assms(1) b big by (rule next_balance_refix)
    obtain m' b' rs where
      res: "amortization_loop add_months r emi e start months (m + 1) ?nb
              (rows @ [schedule_row add_months r emi e start (m + 1) b]) = (m', b', rs)"
      by (metis prod_cases3)
    from amortization_loop_stuck [OF stuck big res] cap have "m' = months + 600" by simp
    moreover have "?R = m'"
      using loop_fst_continue [OF b cap False, of add_months start rows] res by simp
    moreover have "?L \<le> max m (months + 600)" by (rule amortization_loop_fst_le)
    ultimately show ?thesis using cap by simp
  qed
qed

lemma loop_fst_extra:
  assumes "e \<le> e'"
  shows "fst (amortization_loop add_months r emi e' start months m b rows')
           \<le> fst (amortization_loop add_months r emi e start months m b rows)"
proof (cases "0 \<le> 1 + r")
  case True
  then show ?thesis using assms by (intro loop_fst_mono) simp_all
next
  case False
  then have "1 + r \<le> 0" by simp
  then show ?thesis using assms by (rule loop_fst_same_balance)
qed

lemma schedule_with_extra:
  "amortization_schedule (+) 100 0 2 (0::int) 50
     = Inr [\<lparr> installment_no = 1, row_date = 0, opening_balance = 100,
               emi_excl_extra = 50, extra_paid = 50, interest_paid = 0,
               principal_paid = 100, total_paid = 100, closing_balance = 0 \<rparr>]"
  by (simp add: amortization_schedule_def compute_emi_def amortization_loop_break
        next_balance_def schedule_row_def snap_last_def Let_def)

text \<open>
  Claim C8. Extra payments never lengthen a schedule: for a positive extra payment,
  either \<open>compute_emi\<close> raises and both calls of \<open>amortization_schedule\<close> raise, or
  both return and the schedule with the extra payment has at most as many records as
  the schedule for the same terms with no extra payment.
\<close>

theorem extra_payment_not_longer:
  assumes "0 < extra_payment"
  shows "(amortization_schedule add_months principal_amt a months start extra_payment
            = Inl ZeroDivisionError
          \<and> amortization_schedule add_months principal_amt a months start 0
            = Inl ZeroDivisionError)
         \<or> (\<exists>rows rows0.
              amortization_schedule add_months principal_amt a months start extra_payment
                = Inr rows
              \<and> amortization_schedule add_months principal_amt a months start 0 = Inr rows0
              \<and> length rows \<le> length rows0)"
proof (cases "compute_emi principal_amt a months")
  case (Inl e)
  then show ?thesis
    by (cases e) (simp add: amortization_schedule_def)
next
  case (Inr emi)
  let ?r = "a / 12 / 100"
  obtain m b rows where
    res: "amortization_loop add_months ?r emi extra_payment start months 0 principal_amt []
            = (m, b, rows)"
    by (metis prod_cases3)
  obtain m0 b0 rows0 where
    res0: "amortization_loop add_months ?r emi 0 start months 0 principal_amt []
            = (m0, b0, rows0)"
    by (metis prod_cases3)
  have "fst (amortization_loop add_months ?r emi extra_payment start months 0 principal_amt [])
          \<le> fst (amortization_loop add_months ?r emi 0 start months 0 principal_amt [])"
    using assms by (intro loop_fst_extra) simp
  with res res0 have "m \<le> m0" by simp
  moreover from amortization_loop_counter [OF res] have "int (length rows) = m" by simp
  moreover from amortization_loop_counter [OF res0] have "int (length rows0) = m0" by simp
  ultimately have "length rows \<le> length rows0" by simp
  moreover have "amortization_schedule add_months principal_amt a months start extra_payment
                   = Inr (snap_last rows)"
    using Inr res by (simp add: amortization_schedule_Inr)
  moreover have "amortization_schedule add_months principal_amt a months start 0
                   = Inr (snap_last rows0)"
    using Inr res0 by (simp add: amortization_schedule_Inr)
  ultimately show ?thesis by simp
qed

theorem extra_payment_not_longer_witness:
  "(0::real) < 50
   \<and> map_sum id length (amortization_schedule (+) 100 0 2 (0::int) 50) = Inr 1
   \<and> map_sum id length (amortization_schedule (+) 100 0 2 (0::int) 0) = Inr 2
   \<and> (1::nat) \<le> 2"
  using extra_payment_not_longer [of 50 "(+)" 100 0 2 "0::int"]
  by (simp add: schedule_with_extra schedule_two_rows)

section \<open>Properties of \<^verbatim>\<open>sensitivity_table\<close>\<close>

lemma set_alist_update:
  "(k', v') \<in> set (AList.update k v al) \<Longrightarrow> (k', v') = (k, v) \<or> (k', v') \<in> set al"
  by (induction al) (auto split: if_splits)

lemma sens_cells_result:
  assumes "sens_cells principal_amt r years_list row = Inr row'"
  shows "rate_pct row' = rate_pct row
         \<and> fst ` set (tenure_cells row') = fst ` set (tenure_cells row) \<union> set years_list
         \<and> (\<forall>(y, v) \<in> set (tenure_cells row').
              (y, v) \<in> set (tenure_cells row)
              \<or> compute_emi principal_amt r (py_int (y * 12)) = Inr v)"
  using assms
proof (induction years_list arbitrary: row)
  case Nil
  then show ?case by auto
next
  case (Cons y years_list)
  from Cons.prems obtain v where
    v: "compute_emi principal_amt r (py_int (y * 12)) = Inr v"
    and rest: "sens_cells principal_amt r years_list
                 (row\<lparr>tenure_cells := AList.update y v (tenure_cells row)\<rparr>) = Inr row'"
    by (auto simp: Let_def split: sum.splits)
  from Cons.IH [OF rest] v show ?case
    by (auto simp: dom_update dest: set_alist_update)
qed

lemma sens_rows_result:
  assumes "sens_rows principal_amt years_list rate_list out = Inr rows"
  shows "\<exists>new. rows = out @ new \<and> map rate_pct new = rate_list
           \<and> (\<forall>row \<in> set new.
                fst ` set (tenure_cells row) = set years_list
                \<and> (\<forall>(y, v) \<in> set (tenure_cells row).
                     compute_emi principal_amt (rate_pct row) (py_int (y * 12)) = Inr v))"
  using assms
proof (induction rate_list arbitrary: out)
  case Nil
  then show ?case by simp
next
  case (Cons r rate_list)
  from Cons.prems obtain row where
    row: "sens_cells principal_amt r years_list \<lparr>rate_pct = r, tenure_cells = []\<rparr> = Inr row"
    and rest: "sens_rows principal_amt years_list rate_list (out @ [row]) = Inr rows"
    by (auto split: sum.splits)
  from sens_cells_result [OF row]
  have r1: "rate_pct row = r"
    and r2: "fst ` set (tenure_cells row) = set years_list"
    and r3: "\<forall>(y, v) \<in> set (tenure_cells row).
               compute_emi principal_amt (rate_pct row) (py_int (y * 12)) = Inr v"
    by auto
  from Cons.IH [OF rest] obtain new where
    new: "rows = (out @ [row]) @ new" "map rate_pct new = rate_list"
      "\<forall>row \<in> set new.
         fst ` set (tenure_cells row) = set years_list
         \<and> (\<forall>(y, v) \<in> set (tenure_cells row).
              compute_emi principal_amt (rate_pct row) (py_int (y * 12)) = Inr v)"
    by blast
  show ?case
  proof (intro exI conjI)
    show "rows = out @ (row # new)" using new(1) by simp
    show "map rate_pct (row # new) = r # rate_list" using r1 new(2) by simp
    show "\<forall>row \<in> set (row # new).
            fst ` set (tenure_cells row) = set years_list
            \<and> (\<forall>(y, v) \<in> set (tenure_cells row).
                 compute_emi principal_amt (rate_pct row) (py_int (y * 12)) = Inr v)"
      using r2 r3 new(3) by simp
  qed
qed

text \<open>
  Claim C10. The grid does not depend on the \<open>base_rate\<close> argument: for every
  principal, list of tenures and list of rates, two base rates give the same result
  (the same table, or the same exception). When a table is returned it has one row per
  rate of the list, in order, each row has the tenures of the list as its columns, and
  every cell is the value of \<open>compute_emi\<close> at the principal, the rate of its row and
  \<open>int(years * 12)\<close> for the tenure of its column.
\<close>

theorem sensitivity_table_base_rate:
  "sensitivity_table principal_amt b1 years_list rate_list
     = sensitivity_table principal_amt b2 years_list rate_list
   \<and> (\<forall>rows. sensitivity_table principal_amt b1 years_list rate_list = Inr rows \<longrightarrow>
         map rate_pct rows = rate_list
         \<and> (\<forall>row \<in> set rows.
              fst ` set (tenure_cells row) = set years_list
              \<and> (\<forall>(y, v) \<in> set (tenure_cells row).
                   compute_emi principal_amt (rate_pct row) (py_int (y * 12)) = Inr v)))"
proof (intro conjI allI impI)
  show "sensitivity_table principal_amt b1 years_list rate_list
          = sensitivity_table principal_amt b2 years_list rate_list"
    by (simp add: sensitivity_table_def)
next
  fix rows
  assume "sensitivity_table principal_amt b1 years_list rate_list = Inr rows"
  then have "sens_rows principal_amt years_list rate_list [] = Inr rows"
    by (simp add: sensitivity_table_def)
  from sens_rows_result [OF this]
  show "map rate_pct rows = rate_list"
    and "\<forall>row \<in> set rows.
           fst ` set (tenure_cells row) = set years_list
           \<and> (\<forall>(y, v) \<in> set (tenure_cells row).
                compute_emi principal_amt (rate_pct row) (py_int (y * 12)) = Inr v)"
    by auto
qed

lemma sensitivity_table_example:
  "sensitivity_table 1200 b [1, 2] [0]
     = Inr [\<lparr>rate_pct = 0, tenure_cells = [(1, 100), (2, 50)]\<rparr>]"
  by (simp add: sensitivity_table_def compute_emi_def py_int_def Let_def)

theorem sensitivity_table_base_rate_witness:
  "sensitivity_table 1200 9 [1, 2] [0]
     = Inr [\<lparr>rate_pct = 0, tenure_cells = [(1, 100), (2, 50)]\<rparr>]
   \<and> sensitivity_table 1200 5 [1, 2] [0]
     = Inr [\<lparr>rate_pct = 0, tenure_cells = [(1, 100), (2, 50)]\<rparr>]
   \<and> compute_emi 1200 0 (py_int (1 * 12)) = Inr 100
   \<and> compute_emi 1200 0 (py_int (2 * 12)) = Inr 50"
  using sensitivity_table_base_rate [of 1200 9 "[1, 2]" "[0]" 5]
  by (simp add: sensitivity_table_example)

end
